theory Spec2Isabelle
  imports Complex_Main
begin

section \<open>Honeybee infORventPerArea Calculator: data model\<close>

text \<open>
  The component is a Python 2 script. Its floats are modelled as the reals (exact
  arithmetic, no infinities), a value that may be \<open>None\<close> as an option, and every
  exception the script can raise as a value of \<open>exn\<close>. Of the rounding of doubles one
  case is modelled, the underflow of \<open>_blowerPressure_/4\<close> to zero: it alone decides
  whether an exception is raised, all other rounding only moves a value.
\<close>

datatype exn = TypeError | ZeroDivisionError | ValueError | IndexError

text \<open>
  Modelled from the spec: the surface class of the Honeybee library is not part of the
  script. The record has what the script reads of a surface, \<open>srf.type\<close> (a numeric
  code), \<open>srf.BC\<close> (a string) and \<open>srf.geometry\<close> (an opaque handle), as the spec's
  SurfaceRecord describes them.
\<close>

record 'g surface =
  type :: real
  BC :: string
  geometry :: "'g"

text \<open>
  Modelled from the spec: the zone class of the Honeybee library, with its methods
  \<open>getExposedArea\<close>, \<open>getFloorArea\<close> and \<open>getZoneVolume\<close>, is not part of the
  script. The record has what the script reads of a zone; the results of the three
  methods are fields. By the spec's ZoneRecord the two areas may be absent (\<open>None\<close>)
  or zero, the volume is always a number.
\<close>

record 'g zone =
  getExposedArea :: "real option"
  getFloorArea :: "real option"
  getZoneVolume :: real
  surfaces :: "'g surface list"
  name :: string

text \<open>
  What the script prints: the flow-rate line of a zone (zone name and flow rate; the
  \<open>'%.4f'\<close> rendering of the number is not modelled) or a plain text.
\<close>

datatype line = FlowRateLine string real | TextLine string

text \<open>The four output lists of \<open>main\<close>, with what it printed and the runtime warnings it added.\<close>

record 'g outputs =
  infPerAreaFacade :: "real list"
  ventPerAreaFloor :: "real list"
  allExposed :: "'g list"
  allFloors :: "'g list"
  printed :: "line list"
  runtimeMessages :: "string list"

section \<open>Python primitives\<close>

text \<open>\<open>a * b\<close> with a float \<open>a\<close>: a \<open>TypeError\<close> when \<open>b\<close> is \<open>None\<close>.\<close>

fun multiply_by :: "real \<Rightarrow> real option \<Rightarrow> exn + real" where
  "multiply_by a None = Inl TypeError"
| "multiply_by a (Some b) = Inr (a * b)"

text \<open>\<open>a / b\<close> with a float \<open>a\<close>: a \<open>TypeError\<close> when \<open>b\<close> is \<open>None\<close>, a \<open>ZeroDivisionError\<close> when it is zero.\<close>

fun divide_by :: "real \<Rightarrow> real option \<Rightarrow> exn + real" where
  "divide_by a None = Inl TypeError"
| "divide_by a (Some b) = (if b = 0 then Inl ZeroDivisionError else Inr (a / b))"

text \<open>
  \<open>math.pow(x, y)\<close>: a \<open>ValueError\<close> (math domain error) for a negative base with a
  non-integer exponent and for a zero base with a negative exponent.
\<close>

definition math_pow :: "real \<Rightarrow> real \<Rightarrow> exn + real" where
  "math_pow x y =
     (if x < 0 \<and> of_int \<lfloor>y\<rfloor> \<noteq> y then Inl ValueError
      else if x = 0 \<and> y < 0 then Inl ValueError
      else if x < 0 then Inr (x powi \<lfloor>y\<rfloor>)
      else if x = 0 then Inr (if y = 0 then 1 else 0)
      else Inr (x powr y))"

text \<open>
  \<open>x / 4\<close> in double precision. The least positive double is \<open>2 ^ -1074\<close> (about
  5e-324); a quotient whose magnitude is at most half of it rounds to zero (at exactly
  half, the tie goes to the even neighbour, which is zero). For the doubles this
  happens at \<open>x = 2 ^ -1074\<close> and \<open>x = 2 ^ -1073\<close> and their negatives.
\<close>

definition least_double :: real where
  "least_double = 1 / 2 ^ 1074"

definition float_quarter :: "real \<Rightarrow> real" where
  "float_quarter x = (if \<bar>x / 4\<bar> \<le> least_double / 2 then 0 else x / 4)"

text \<open>\<open>int(x)\<close> of a float: truncation toward zero.\<close>

definition py_int :: "real \<Rightarrow> int" where
  "py_int x = (if 0 \<le> x then \<lfloor>x\<rfloor> else \<lceil>x\<rceil>)"

text \<open>\<open>str.lower()\<close> of a byte string: the letters \<open>A\<close> to \<open>Z\<close> (codes 65 to 90) move to \<open>a\<close> to \<open>z\<close>.\<close>

definition lower_char :: "char \<Rightarrow> char" where
  "lower_char c =
     (if 65 \<le> (of_char c :: nat) \<and> (of_char c :: nat) \<le> 90
      then char_of ((of_char c :: nat) + 32) else c)"

definition lower :: "string \<Rightarrow> string" where
  "lower s = map lower_char s"

section \<open>The script\<close>

definition negative_rate_msg :: string where
  "negative_rate_msg = ''Give a value for airChangeHour bigger than 0.''"

definition facade_warning :: string where
  "facade_warning = ''One of the HBZones did not have any esposed surface area.'' @ [CHR 0x0A] @
     ''A value of 0 will be output for infPerAreaFacade.''"

definition floor_warning :: string where
  "floor_warning = ''One of the HBZones did not have any floor area.'' @ [CHR 0x0A] @
     ''A value of 0 will be output for ventPerAreaFloor.''"

text \<open>
  \<open>checkInputs\<close> reads the component inputs \<open>_airFlowRate\<close>, \<open>_HBZones\<close> and
  \<open>_ACHorM3sM2_\<close>; they are parameters here. It returns \<open>checkData\<close>, \<open>unit\<close> and the
  messages it printed and added as runtime warnings. \<open>_HBZones[0]\<close> raises
  \<open>IndexError\<close> on an empty list.
\<close>

definition checkInputs ::
  "real \<Rightarrow> 'h option list \<Rightarrow> bool option \<Rightarrow> exn + (bool \<times> bool \<times> string list)" where
  "checkInputs airFlowRate HBZones ACHorM3sM2 =
     (let (checkData, msgs) =
            (if airFlowRate < 0 then (False, [negative_rate_msg]) else (True, []))
      in case HBZones of
           [] \<Rightarrow> Inl IndexError
         | first # rest \<Rightarrow>
             let checkData = (if first = None then False else checkData);
                 unit = (case ACHorM3sM2 of None \<Rightarrow> True | Some flag \<Rightarrow> flag)
             in Inr (checkData, unit, msgs))"

text \<open>Lines 92 to 96 of \<open>main\<close>: the flow rate in m3/s before any pressure conversion.\<close>

definition baseFlowRate :: "real \<Rightarrow> bool \<Rightarrow> 'g zone \<Rightarrow> exn + real" where
  "baseFlowRate airFlowRate unit HZone =
     (if unit = True then Inr ((airFlowRate * getZoneVolume HZone) / 3600)
      else multiply_by airFlowRate (getExposedArea HZone))"

text \<open>
  Lines 99 and 100: the conversion from the blower pressure to 4 Pa. The division of
  the flow by the power is outside any \<open>try\<close>: it raises \<open>ZeroDivisionError\<close> when
  the power is zero, which is when \<open>_blowerPressure_/4\<close> has underflowed to zero.
\<close>

definition blowerConversion :: "real option \<Rightarrow> real \<Rightarrow> exn + real" where
  "blowerConversion blowerPressure flow =
     (case blowerPressure of
        None \<Rightarrow> Inr flow
      | Some p \<Rightarrow>
          if p \<noteq> 0 then
            (case math_pow (float_quarter p) 0.63 of
               Inl e \<Rightarrow> Inl e
             | Inr d \<Rightarrow> divide_by flow (Some d))
          else Inr flow)"

definition standardFlowRate :: "real \<Rightarrow> bool \<Rightarrow> real option \<Rightarrow> 'g zone \<Rightarrow> exn + real" where
  "standardFlowRate airFlowRate unit blowerPressure HZone =
     (case baseFlowRate airFlowRate unit HZone of
        Inl e \<Rightarrow> Inl e
      | Inr flow \<Rightarrow> blowerConversion blowerPressure flow)"

text \<open>Lines 107 to 115: the first \<open>try\<close>; the bare \<open>except\<close> catches every exception of the division.\<close>

definition facadeStep :: "real \<Rightarrow> real option \<Rightarrow> 'g outputs \<Rightarrow> 'g outputs" where
  "facadeStep flow zoneSrfArea out =
     (case divide_by flow zoneSrfArea of
        Inr q \<Rightarrow> out\<lparr>infPerAreaFacade := infPerAreaFacade out @ [q]\<rparr>
      | Inl e \<Rightarrow> out\<lparr>printed := printed out @ [TextLine facade_warning],
                     runtimeMessages := runtimeMessages out @ [facade_warning],
                     infPerAreaFacade := infPerAreaFacade out @ [0]\<rparr>)"

text \<open>Lines 118 to 126: the second \<open>try\<close>.\<close>

definition floorStep :: "real \<Rightarrow> real option \<Rightarrow> 'g outputs \<Rightarrow> 'g outputs" where
  "floorStep flow flrArea out =
     (case divide_by flow flrArea of
        Inr q \<Rightarrow> out\<lparr>ventPerAreaFloor := ventPerAreaFloor out @ [q]\<rparr>
      | Inl e \<Rightarrow> out\<lparr>printed := printed out @ [TextLine floor_warning],
                     runtimeMessages := runtimeMessages out @ [floor_warning],
                     ventPerAreaFloor := ventPerAreaFloor out @ [0]\<rparr>)"

text \<open>Lines 129 to 132 and 133 to 135: the two loops over the surfaces of a zone.\<close>

fun floorsLoop :: "'g list \<Rightarrow> 'g surface list \<Rightarrow> 'g list" where
  "floorsLoop acc [] = acc"
| "floorsLoop acc (srf # srfs) =
     floorsLoop (if py_int (type srf) = 2 then acc @ [geometry srf] else acc) srfs"

fun exposedLoop :: "'g list \<Rightarrow> 'g surface list \<Rightarrow> 'g list" where
  "exposedLoop acc [] = acc"
| "exposedLoop acc (HBSrf # srfs) =
     exposedLoop (if lower (BC HBSrf) = ''outdoors'' then acc @ [geometry HBSrf] else acc) srfs"

text \<open>The body of the loop over the zones (lines 88 to 135).\<close>

definition zoneBody ::
  "real \<Rightarrow> bool \<Rightarrow> real option \<Rightarrow> 'g outputs \<Rightarrow> 'g zone \<Rightarrow> exn + 'g outputs" where
  "zoneBody airFlowRate unit blowerPressure out HZone =
     (let zoneSrfArea = getExposedArea HZone;
          flrArea = getFloorArea HZone
      in case standardFlowRate airFlowRate unit blowerPressure HZone of
           Inl e \<Rightarrow> Inl e
         | Inr flow \<Rightarrow>
             let out1 = out\<lparr>printed := printed out @ [FlowRateLine (name HZone) flow]\<rparr>;
                 out2 = facadeStep flow zoneSrfArea out1;
                 out3 = floorStep flow flrArea out2;
                 out4 = out3\<lparr>allFloors := floorsLoop (allFloors out3) (surfaces HZone)\<rparr>;
                 out5 = out4\<lparr>allExposed := exposedLoop (allExposed out4) (surfaces HZone)\<rparr>
             in Inr out5)"

fun zonesLoop ::
  "real \<Rightarrow> bool \<Rightarrow> real option \<Rightarrow> 'g outputs \<Rightarrow> 'g zone list \<Rightarrow> exn + 'g outputs" where
  "zonesLoop airFlowRate unit blowerPressure out [] = Inr out"
| "zonesLoop airFlowRate unit blowerPressure out (HZone # zones) =
     (case zoneBody airFlowRate unit blowerPressure out HZone of
        Inl e \<Rightarrow> Inl e
      | Inr out' \<Rightarrow> zonesLoop airFlowRate unit blowerPressure out' zones)"

definition no_outputs :: "'g outputs" where
  "no_outputs = \<lparr>infPerAreaFacade = [], ventPerAreaFloor = [], allExposed = [], allFloors = [],
     printed = [], runtimeMessages = []\<rparr>"

text \<open>
  \<open>main\<close>. The hive's \<open>visualizeFromHoneybeeHive\<close> belongs to the host library and is
  the parameter \<open>hb_hive\<close>: it turns the component's zone input into the zone objects.
  \<open>_blowerPressure_\<close> is a global of the script and a parameter here.
\<close>

definition main ::
  "('h option list \<Rightarrow> 'g zone list) \<Rightarrow> 'h option list \<Rightarrow> real \<Rightarrow> bool \<Rightarrow> real option
     \<Rightarrow> exn + 'g outputs" where
  "main hb_hive HBZones airFlowRate unit blowerPressure =
     (let zones = hb_hive HBZones
      in zonesLoop airFlowRate unit blowerPressure no_outputs zones)"

text \<open>
  The module entry (lines 162 to 167). \<open>initCheck\<close> is the result of the Honeybee check
  of lines 141 to 157. The result is what was printed by \<open>checkInputs\<close> and the outputs
  of the component, \<open>None\<close> when they were never assigned.
\<close>

definition component ::
  "('h option list \<Rightarrow> 'g zone list) \<Rightarrow> bool \<Rightarrow> 'h option list \<Rightarrow> real \<Rightarrow> bool option
     \<Rightarrow> real option \<Rightarrow> exn + (string list \<times> 'g outputs option)" where
  "component hb_hive initCheck HBZones airFlowRate ACHorM3sM2 blowerPressure =
     (if HBZones \<noteq> [] \<and> airFlowRate \<noteq> 0 \<and> initCheck = True then
        (case checkInputs airFlowRate HBZones ACHorM3sM2 of
           Inl e \<Rightarrow> Inl e
         | Inr (checkData, unit, msgs) \<Rightarrow>
             if checkData = True then
               (case main hb_hive HBZones airFlowRate unit blowerPressure of
                  Inl e \<Rightarrow> Inl e
                | Inr result \<Rightarrow> Inr (msgs, Some result))
             else Inr (msgs, None))
      else Inr ([], None))"

section \<open>Notions used to state the properties\<close>

text \<open>
  The value the two \<open>try\<close> blocks append for a flow and an area: the quotient, or the
  value 0 of the \<open>except\<close> branch when the area is absent or zero.
\<close>

definition perArea :: "real \<Rightarrow> real option \<Rightarrow> real" where
  "perArea flow area = (case area of None \<Rightarrow> 0 | Some a \<Rightarrow> if a = 0 then 0 else flow / a)"

definition noArea :: "real option \<Rightarrow> bool" where
  "noArea area = (area = None \<or> area = Some 0)"

text \<open>What one pass of the two surface loops adds for a zone.\<close>

definition floorsOf :: "'g zone \<Rightarrow> 'g list" where
  "floorsOf z = map geometry (filter (\<lambda>srf. py_int (type srf) = 2) (surfaces z))"

definition exposedOf :: "'g zone \<Rightarrow> 'g list" where
  "exposedOf z = map geometry (filter (\<lambda>srf. lower (BC srf) = ''outdoors'') (surfaces z))"

text \<open>What the body of the zone loop prints and which runtime warnings it adds for a zone.\<close>

definition linesOf :: "real \<Rightarrow> 'g zone \<Rightarrow> line list" where
  "linesOf f z = [FlowRateLine (name z) f] @
     (if noArea (getExposedArea z) then [TextLine facade_warning] else []) @
     (if noArea (getFloorArea z) then [TextLine floor_warning] else [])"

definition warningsOf :: "'g zone \<Rightarrow> string list" where
  "warningsOf z = (if noArea (getExposedArea z) then [facade_warning] else []) @
     (if noArea (getFloorArea z) then [floor_warning] else [])"

text \<open>
  Equality of two strings up to the case of the letters \<open>A\<close> to \<open>Z\<close>, stated without
  \<open>lower\<close>: the strings have the same length and at every position the two characters
  are the same, or one is the upper-case letter of the other.
\<close>

definition is_upper :: "char \<Rightarrow> bool" where
  "is_upper c = (65 \<le> (of_char c :: nat) \<and> (of_char c :: nat) \<le> 90)"

definition same_letter :: "char \<Rightarrow> char \<Rightarrow> bool" where
  "same_letter c d =
     (c = d \<or> (is_upper c \<and> (of_char d :: nat) = of_char c + 32)
            \<or> (is_upper d \<and> (of_char c :: nat) = of_char d + 32))"

definition equal_ignoring_case :: "string \<Rightarrow> string \<Rightarrow> bool" where
  "equal_ignoring_case s t = list_all2 same_letter s t"

text \<open>
  A blower pressure the conversion accepts: absent, zero, or above \<open>2 ^ -1073\<close>, so
  that a quarter of it is a positive double.
\<close>

definition usablePressure :: "real option \<Rightarrow> bool" where
  "usablePressure bp = (case bp of None \<Rightarrow> True | Some p \<Rightarrow> p = 0 \<or> 2 * least_double < p)"

text \<open>The floors of a zone by the exact type code 2.\<close>

definition exactFloors :: "'g zone \<Rightarrow> 'g list" where
  "exactFloors z = map geometry (filter (\<lambda>srf. type srf = 2) (surfaces z))"

section \<open>Example zones\<close>

text \<open>A hive whose handles are the zone objects themselves; a \<open>None\<close> handle resolves to nothing.\<close>

definition direct_hive :: "'g zone option list \<Rightarrow> 'g zone list" where
  "direct_hive HBZones = concat (map (\<lambda>h. case h of None \<Rightarrow> [] | Some z \<Rightarrow> [z]) HBZones)"

text \<open>
  An office with six surfaces (an interior floor, a ground floor, an exposed floor, a
  wall, a roof, a ceiling), a cellar with one ground floor, a core zone without exposed
  area and a shell whose exposed area is absent.
\<close>

definition office :: "nat zone" where
  "office = \<lparr>getExposedArea = Some 50, getFloorArea = Some 20, getZoneVolume = 100,
     surfaces = [\<lparr>type = 2, BC = ''Surface'', geometry = 1\<rparr>,
                 \<lparr>type = 2.5, BC = ''Ground'', geometry = 2\<rparr>,
                 \<lparr>type = 2.75, BC = ''Outdoors'', geometry = 3\<rparr>,
                 \<lparr>type = 0, BC = ''OUTDOORS'', geometry = 4\<rparr>,
                 \<lparr>type = 1, BC = ''outdoors'', geometry = 5\<rparr>,
                 \<lparr>type = 3, BC = ''Adiabatic'', geometry = 6\<rparr>],
     name = ''office''\<rparr>"

definition cellar :: "nat zone" where
  "cellar = \<lparr>getExposedArea = Some 50, getFloorArea = Some 20, getZoneVolume = 100,
     surfaces = [\<lparr>type = 2.5, BC = ''Ground'', geometry = 7\<rparr>],
     name = ''cellar''\<rparr>"

definition core :: "nat zone" where
  "core = \<lparr>getExposedArea = Some 0, getFloorArea = Some 20, getZoneVolume = 100,
     surfaces = [\<lparr>type = 2, BC = ''Surface'', geometry = 8\<rparr>],
     name = ''core''\<rparr>"

definition shell :: "nat zone" where
  "shell = \<lparr>getExposedArea = None, getFloorArea = Some 20, getZoneVolume = 100,
     surfaces = [], name = ''shell''\<rparr>"

section \<open>Auxiliary lemmas\<close>

lemma floorsLoop_eq:
  "floorsLoop acc srfs = acc @ map geometry (filter (\<lambda>srf. py_int (type srf) = 2) srfs)"
  by (induction srfs arbitrary: acc) simp_all

lemma exposedLoop_eq:
  "exposedLoop acc srfs = acc @ map geometry (filter (\<lambda>srf. lower (BC srf) = ''outdoors'') srfs)"
  by (induction srfs arbitrary: acc) simp_all

lemma py_int_eq_2: "py_int x = 2 \<longleftrightarrow> 2 \<le> x \<and> x < 3"
proof (cases "0 \<le> x")
  case True
  then show ?thesis by (simp add: py_int_def floor_eq_iff)
next
  case False
  then have "\<lceil>x\<rceil> \<le> 0" by (simp add: ceiling_le_iff)
  then have "\<lceil>x\<rceil> \<noteq> 2" by linarith
  with False show ?thesis by (simp add: py_int_def)
qed

lemma facadeStep_fields:
  "infPerAreaFacade (facadeStep f a out) = infPerAreaFacade out @ [perArea f a]"
  "ventPerAreaFloor (facadeStep f a out) = ventPerAreaFloor out"
  "allFloors (facadeStep f a out) = allFloors out"
  "allExposed (facadeStep f a out) = allExposed out"
  "runtimeMessages (facadeStep f a out) =
     runtimeMessages out @ (if noArea a then [facade_warning] else [])"
  "printed (facadeStep f a out) =
     printed out @ (if noArea a then [TextLine facade_warning] else [])"
  by (cases a; simp add: facadeStep_def perArea_def noArea_def)+

lemma floorStep_fields:
  "infPerAreaFacade (floorStep f a out) = infPerAreaFacade out"
  "ventPerAreaFloor (floorStep f a out) = ventPerAreaFloor out @ [perArea f a]"
  "allFloors (floorStep f a out) = allFloors out"
  "allExposed (floorStep f a out) = allExposed out"
  "runtimeMessages (floorStep f a out) =
     runtimeMessages out @ (if noArea a then [floor_warning] else [])"
  "printed (floorStep f a out) =
     printed out @ (if noArea a then [TextLine floor_warning] else [])"
  by (cases a; simp add: floorStep_def perArea_def noArea_def)+

lemma zoneBody_error:
  "standardFlowRate r u bp z = Inl e \<Longrightarrow> zoneBody r u bp out z = Inl e"
  by (simp add: zoneBody_def)

lemma zoneBody_fields:
  assumes "standardFlowRate r u bp z = Inr f"
  shows "\<exists>out'. zoneBody r u bp out z = Inr out' \<and>
    infPerAreaFacade out' = infPerAreaFacade out @ [perArea f (getExposedArea z)] \<and>
    ventPerAreaFloor out' = ventPerAreaFloor out @ [perArea f (getFloorArea z)] \<and>
    allFloors out' = allFloors out @ floorsOf z \<and>
    allExposed out' = allExposed out @ exposedOf z \<and>
    runtimeMessages out' = runtimeMessages out @ warningsOf z \<and>
    printed out' = printed out @ linesOf f z"
  using assms
  by (simp add: zoneBody_def Let_def facadeStep_fields floorStep_fields floorsLoop_eq
      exposedLoop_eq floorsOf_def exposedOf_def warningsOf_def linesOf_def)

lemma zonesLoop_error:
  "z \<in> set zs \<Longrightarrow> standardFlowRate r u bp z = Inl e \<Longrightarrow>
     \<exists>e'. zonesLoop r u bp out zs = Inl e'"
proof (induction zs arbitrary: out)
  case Nil
  then show ?case by simp
next
  case (Cons y ys)
  show ?case
  proof (cases "standardFlowRate r u bp y")
    case (Inl e0)
    then show ?thesis by (simp add: zoneBody_error)
  next
    case (Inr f)
    with Cons.prems have "z \<in> set ys" by auto
    from zoneBody_fields [OF Inr, of out] obtain out1
      where "zoneBody r u bp out y = Inr out1" by blast
    with Cons.IH [OF \<open>z \<in> set ys\<close> Cons.prems(2), of out1] show ?thesis by simp
  qed
qed

lemma zonesLoop_fields:
  assumes "map (standardFlowRate r u bp) zs = map Inr fs"
  shows "\<exists>out'. zonesLoop r u bp out zs = Inr out' \<and>
    infPerAreaFacade out' = infPerAreaFacade out @ map2 perArea fs (map getExposedArea zs) \<and>
    ventPerAreaFloor out' = ventPerAreaFloor out @ map2 perArea fs (map getFloorArea zs) \<and>
    allFloors out' = allFloors out @ concat (map floorsOf zs) \<and>
    allExposed out' = allExposed out @ concat (map exposedOf zs) \<and>
    runtimeMessages out' = runtimeMessages out @ concat (map warningsOf zs) \<and>
    printed out' = printed out @ concat (map2 linesOf fs zs)"
  using assms
proof (induction zs arbitrary: out fs)
  case Nil
  then show ?case by simp
next
  case (Cons y ys)
  from Cons.prems obtain f fs' where fs: "fs = f # fs'"
    and y: "standardFlowRate r u bp y = Inr f"
    and ys: "map (standardFlowRate r u bp) ys = map Inr fs'"
    by (cases fs) auto
  from zoneBody_fields [OF y, of out] obtain out1 where
    b: "zoneBody r u bp out y = Inr out1"
    "infPerAreaFacade out1 = infPerAreaFacade out @ [perArea f (getExposedArea y)]"
    "ventPerAreaFloor out1 = ventPerAreaFloor out @ [perArea f (getFloorArea y)]"
    "allFloors out1 = allFloors out @ floorsOf y"
    "allExposed out1 = allExposed out @ exposedOf y"
    "runtimeMessages out1 = runtimeMessages out @ warningsOf y"
    "printed out1 = printed out @ linesOf f y"
    by blast
  from Cons.IH [OF ys, of out1] b fs show ?case by simp
qed

lemma flows_exist:
  "\<forall>z\<in>set zs. \<exists>f. standardFlowRate r u bp z = Inr f \<Longrightarrow>
     \<exists>fs. map (standardFlowRate r u bp) zs = map Inr fs"
proof (induction zs)
  case Nil
  then show ?case by simp
next
  case (Cons y ys)
  then obtain f fs where "standardFlowRate r u bp y = Inr f"
    and "map (standardFlowRate r u bp) ys = map Inr fs" by auto
  then have "map (standardFlowRate r u bp) (y # ys) = map Inr (f # fs)" by simp
  then show ?case by blast
qed

lemma zonesLoop_flows:
  assumes "zonesLoop r u bp out zs = Inr out'"
  shows "\<exists>fs. map (standardFlowRate r u bp) zs = map Inr fs"
proof (rule flows_exist, rule ballI)
  fix z assume z: "z \<in> set zs"
  show "\<exists>f. standardFlowRate r u bp z = Inr f"
  proof (cases "standardFlowRate r u bp z")
    case (Inl e)
    from zonesLoop_error [OF z Inl, of out] assms show ?thesis by auto
  next
    case (Inr f)
    then show ?thesis by blast
  qed
qed

lemma of_char_lower_char:
  "(of_char (lower_char c) :: nat) = (if is_upper c then of_char c + 32 else of_char c)"
  by (simp add: lower_char_def is_upper_def)

lemma lower_char_eq_iff: "lower_char c = lower_char d \<longleftrightarrow> same_letter c d"
proof -
  have "lower_char c = lower_char d \<longleftrightarrow>
      (of_char (lower_char c) :: nat) = of_char (lower_char d)"
    by (simp only: of_char_eq_iff)
  also have "\<dots> \<longleftrightarrow> same_letter c d"
  proof -
    have "c = d \<longleftrightarrow> (of_char c :: nat) = of_char d" by (simp only: of_char_eq_iff)
    then show ?thesis
      by (auto simp add: of_char_lower_char same_letter_def is_upper_def)
  qed
  finally show ?thesis .
qed

lemma lower_eq_iff: "lower s = lower t \<longleftrightarrow> equal_ignoring_case s t"
proof (induction s arbitrary: t)
  case Nil
  then show ?case by (simp add: lower_def equal_ignoring_case_def)
next
  case (Cons c cs)
  then show ?case
    by (cases t) (simp_all add: lower_def equal_ignoring_case_def lower_char_eq_iff)
qed

lemma lower_outdoors: "lower ''outdoors'' = ''outdoors''"
  by code_simp

lemma lower_is_outdoors: "lower s = ''outdoors'' \<longleftrightarrow> equal_ignoring_case s ''outdoors''"
  using lower_eq_iff [of s "''outdoors''"] by (simp only: lower_outdoors)

lemma math_pow_positive: "0 < x \<Longrightarrow> math_pow x 0.63 = Inr (x powr 0.63)"
  by (simp add: math_pow_def)

lemma math_pow_negative: "x < 0 \<Longrightarrow> math_pow x 0.63 = Inl ValueError"
  by (simp add: math_pow_def)

lemma math_pow_zero: "math_pow 0 0.63 = Inr 0"
  by (simp add: math_pow_def)

lemma least_double_bounds: "0 < least_double" "least_double \<le> 1"
proof -
  have "(1 :: real) \<le> 2 ^ 1074" by (rule one_le_power) simp
  then show "0 < least_double" "least_double \<le> 1"
    by (simp_all add: least_double_def)
qed

lemma float_quarter_exact: "2 * least_double < \<bar>p\<bar> \<Longrightarrow> float_quarter p = p / 4"
  by (simp add: float_quarter_def)

lemma float_quarter_underflow: "\<bar>p\<bar> \<le> 2 * least_double \<Longrightarrow> float_quarter p = 0"
  by (simp add: float_quarter_def)

lemma pressure_clear_of_underflow:
  "2 < p \<Longrightarrow> 2 * least_double < p" "p < - 2 \<Longrightarrow> p < - (2 * least_double)"
  using least_double_bounds(2) by simp_all

lemma blowerConversion_positive:
  assumes "2 * least_double < p"
  shows "blowerConversion (Some p) flow = Inr (flow / (p / 4) powr 0.63)"
proof -
  from assms least_double_bounds(1) have p: "0 < p" by simp
  from assms p have q: "float_quarter p = p / 4"
    by (intro float_quarter_exact) simp
  from p have "0 < p / 4" by simp
  then have "math_pow (p / 4) 0.63 = Inr ((p / 4) powr 0.63)"
    by (rule math_pow_positive)
  with q have "math_pow (float_quarter p) 0.63 = Inr ((p / 4) powr 0.63)"
    by (simp only:)
  with p show ?thesis by (simp add: blowerConversion_def)
qed

lemma blowerConversion_negative:
  assumes "p < - (2 * least_double)"
  shows "blowerConversion (Some p) flow = Inl ValueError"
proof -
  from assms least_double_bounds(1) have p: "p < 0" by simp
  from assms p have q: "float_quarter p = p / 4"
    by (intro float_quarter_exact) simp
  from p have "p / 4 < 0" by simp
  then have "math_pow (p / 4) 0.63 = Inl ValueError"
    by (rule math_pow_negative)
  with q have "math_pow (float_quarter p) 0.63 = Inl ValueError"
    by (simp only:)
  with p show ?thesis by (simp add: blowerConversion_def)
qed

lemma blowerConversion_underflow:
  assumes "p \<noteq> 0" and "\<bar>p\<bar> \<le> 2 * least_double"
  shows "blowerConversion (Some p) flow = Inl ZeroDivisionError"
proof -
  from assms(2) have "float_quarter p = 0" by (rule float_quarter_underflow)
  with assms(1) math_pow_zero show ?thesis by (simp add: blowerConversion_def)
qed

lemma blowerConversion_identity:
  "blowerConversion None flow = Inr flow" "blowerConversion (Some 0) flow = Inr flow"
  by (simp_all add: blowerConversion_def)

lemma blowerConversion_usable:
  "usablePressure bp \<Longrightarrow> \<exists>f. blowerConversion bp flow = Inr f"
proof (cases bp)
  case None
  then show ?thesis by (simp add: blowerConversion_identity)
next
  case (Some p)
  assume "usablePressure bp"
  with Some have "p = 0 \<or> 2 * least_double < p" by (simp add: usablePressure_def)
  with Some show ?thesis
    by (auto simp add: blowerConversion_identity blowerConversion_positive)
qed

lemma baseFlowRate_ACH: "baseFlowRate r True z = Inr (r * getZoneVolume z / 3600)"
  by (simp add: baseFlowRate_def)

lemma baseFlowRate_area: "baseFlowRate r False z = multiply_by r (getExposedArea z)"
  by (simp add: baseFlowRate_def)

lemma standardFlowRate_usable:
  assumes "usablePressure bp" and "u \<or> getExposedArea z \<noteq> None"
  shows "\<exists>f. standardFlowRate r u bp z = Inr f"
proof -
  from assms(2) have "\<exists>base. baseFlowRate r u z = Inr base"
    by (cases u; cases "getExposedArea z")
      (simp_all only: baseFlowRate_ACH baseFlowRate_area multiply_by.simps, blast+)
  then obtain base where "baseFlowRate r u z = Inr base" ..
  with blowerConversion_usable [OF assms(1), of base] show ?thesis
    by (simp add: standardFlowRate_def)
qed

lemma main_fields:
  assumes "main hb_hive HBZones r u bp = Inr out"
  shows "\<exists>fs. map (standardFlowRate r u bp) (hb_hive HBZones) = map Inr fs \<and>
    infPerAreaFacade out = map2 perArea fs (map getExposedArea (hb_hive HBZones)) \<and>
    ventPerAreaFloor out = map2 perArea fs (map getFloorArea (hb_hive HBZones)) \<and>
    allFloors out = concat (map floorsOf (hb_hive HBZones)) \<and>
    allExposed out = concat (map exposedOf (hb_hive HBZones)) \<and>
    runtimeMessages out = concat (map warningsOf (hb_hive HBZones)) \<and>
    printed out = concat (map2 linesOf fs (hb_hive HBZones))"
proof -
  from assms have loop: "zonesLoop r u bp no_outputs (hb_hive HBZones) = Inr out"
    by (simp add: main_def)
  from zonesLoop_flows [OF loop] obtain fs
    where fs: "map (standardFlowRate r u bp) (hb_hive HBZones) = map Inr fs" ..
  from zonesLoop_fields [OF fs, of no_outputs] loop fs show ?thesis
    by (auto simp add: no_outputs_def)
qed

lemma main_total:
  assumes "\<forall>z\<in>set (hb_hive HBZones). \<exists>f. standardFlowRate r u bp z = Inr f"
  shows "\<exists>out. main hb_hive HBZones r u bp = Inr out"
proof -
  from flows_exist [OF assms] obtain fs
    where "map (standardFlowRate r u bp) (hb_hive HBZones) = map Inr fs" ..
  from zonesLoop_fields [OF this, of no_outputs] show ?thesis
    by (auto simp add: main_def)
qed

lemma main_lengths:
  assumes "main hb_hive HBZones r u bp = Inr out"
  shows "length (infPerAreaFacade out) = length (hb_hive HBZones)"
    and "length (ventPerAreaFloor out) = length (hb_hive HBZones)"
proof -
  from main_fields [OF assms] obtain fs where
    fs: "map (standardFlowRate r u bp) (hb_hive HBZones) = map Inr fs"
    and fac: "infPerAreaFacade out = map2 perArea fs (map getExposedArea (hb_hive HBZones))"
    and flr: "ventPerAreaFloor out = map2 perArea fs (map getFloorArea (hb_hive HBZones))"
    by blast
  from fs have "length fs = length (hb_hive HBZones)"
    by (rule map_eq_imp_length_eq [symmetric])
  with fac flr show "length (infPerAreaFacade out) = length (hb_hive HBZones)"
    and "length (ventPerAreaFloor out) = length (hb_hive HBZones)" by simp_all
qed

lemma main_nth:
  assumes "main hb_hive HBZones r u bp = Inr out" and "i < length (hb_hive HBZones)"
  shows "\<exists>flow. standardFlowRate r u bp (hb_hive HBZones ! i) = Inr flow \<and>
    infPerAreaFacade out ! i = perArea flow (getExposedArea (hb_hive HBZones ! i)) \<and>
    ventPerAreaFloor out ! i = perArea flow (getFloorArea (hb_hive HBZones ! i)) \<and>
    set (warningsOf (hb_hive HBZones ! i)) \<subseteq> set (runtimeMessages out) \<and>
    set (linesOf flow (hb_hive HBZones ! i)) \<subseteq> set (printed out)"
proof -
  let ?zs = "hb_hive HBZones"
  from main_fields [OF assms(1)] obtain fs where
    fs: "map (standardFlowRate r u bp) ?zs = map Inr fs"
    and fac: "infPerAreaFacade out = map2 perArea fs (map getExposedArea ?zs)"
    and flr: "ventPerAreaFloor out = map2 perArea fs (map getFloorArea ?zs)"
    and msgs: "runtimeMessages out = concat (map warningsOf ?zs)"
    and lines: "printed out = concat (map2 linesOf fs ?zs)"
    by blast
  from fs have len: "length fs = length ?zs"
    by (rule map_eq_imp_length_eq [symmetric])
  from fs assms(2) len have "map (standardFlowRate r u bp) ?zs ! i = map Inr fs ! i"
    by simp
  with assms(2) len have flow: "standardFlowRate r u bp (?zs ! i) = Inr (fs ! i)"
    by simp
  from assms(2) len fac
  have a: "infPerAreaFacade out ! i = perArea (fs ! i) (getExposedArea (?zs ! i))"
    by simp
  from assms(2) len flr
  have b: "ventPerAreaFloor out ! i = perArea (fs ! i) (getFloorArea (?zs ! i))"
    by simp
  from assms(2) have "?zs ! i \<in> set ?zs" by simp
  with msgs have c: "set (warningsOf (?zs ! i)) \<subseteq> set (runtimeMessages out)"
    by auto
  from assms(2) len have "(fs ! i, ?zs ! i) \<in> set (zip fs ?zs)"
    by (auto simp add: set_zip)
  with lines have d: "set (linesOf (fs ! i) (?zs ! i)) \<subseteq> set (printed out)"
    by force
  from flow a b c d show ?thesis by blast
qed

lemma standardFlowRate_base:
  "baseFlowRate r u z = Inr base \<Longrightarrow> standardFlowRate r u bp z = blowerConversion bp base"
  by (simp add: standardFlowRate_def)

lemma checkInputs_unit:
  assumes "checkInputs r HBZones flag = Inr (checkData, unit, msgs)"
  shows "unit = (flag \<noteq> Some False)"
proof (cases HBZones)
  case Nil
  with assms show ?thesis by (simp add: checkInputs_def split: prod.splits)
next
  case (Cons h hs)
  with assms show ?thesis
    by (cases flag) (auto simp add: checkInputs_def Let_def split: if_splits)
qed

lemma noArea_perArea: "noArea area \<Longrightarrow> perArea flow area = 0"
  by (auto simp add: noArea_def perArea_def)

lemma noArea_warnings:
  "noArea (getExposedArea z) \<Longrightarrow> facade_warning \<in> set (warningsOf z)"
  "noArea (getFloorArea z) \<Longrightarrow> floor_warning \<in> set (warningsOf z)"
  "noArea (getExposedArea z) \<Longrightarrow> TextLine facade_warning \<in> set (linesOf flow z)"
  "noArea (getFloorArea z) \<Longrightarrow> TextLine floor_warning \<in> set (linesOf flow z)"
  by (simp_all add: warningsOf_def linesOf_def)

lemma main_usable:
  assumes "bp = None \<or> bp = Some 0 \<or> (\<exists>p. bp = Some p \<and> 2 * least_double < p)"
    and "u \<or> (\<forall>z\<in>set (hb_hive HBZones). getExposedArea z \<noteq> None)"
  shows "\<exists>out. main hb_hive HBZones r u bp = Inr out"
proof (rule main_total, rule ballI)
  fix z assume "z \<in> set (hb_hive HBZones)"
  with assms(2) have "u \<or> getExposedArea z \<noteq> None" by blast
  moreover from assms(1) have "usablePressure bp"
    by (auto simp add: usablePressure_def)
  ultimately show "\<exists>f. standardFlowRate r u bp z = Inr f"
    by (rule standardFlowRate_usable [rotated])
qed

section \<open>The collected geometry\<close>

text \<open>
  Claim C1, as the spec states it: \<open>allFloors\<close> holds exactly the geometries of the
  surfaces whose type code equals 2, so a surface coded 2.5 or 2.75 is left out. The
  script tests \<open>int(srf.type) == 2\<close>: for the cellar, whose only surface is a ground
  floor coded 2.5, \<open>allFloors\<close> holds that surface's geometry, while no surface of the
  cellar has the exact code 2.
\<close>

theorem allFloors_ground_floor_counterexample:
  "map_sum id allFloors (main direct_hive [Some cellar] 1 True None) = Inr [7]
   \<and> concat (map exactFloors (direct_hive [Some cellar])) = []"
  by code_simp

text \<open>
  Claim C1, amended: whenever \<open>main\<close> returns, \<open>allFloors\<close> is, zone after zone and
  in the order of the surfaces, exactly the geometries of the surfaces whose type code
  truncates to 2, that is, lies in the interval from 2 (included) to 3 (excluded).
  Floors (2), ground floors (2.5) and exposed floors (2.75) are all collected.
\<close>

theorem allFloors_truncated_code:
  assumes "main hb_hive HBZones r u bp = Inr out"
  shows "allFloors out = concat (map (\<lambda>z. map geometry
           (filter (\<lambda>srf. 2 \<le> type srf \<and> type srf < 3) (surfaces z))) (hb_hive HBZones))"
proof -
  from main_fields [OF assms]
  have "allFloors out = concat (map floorsOf (hb_hive HBZones))" by blast
  also have "floorsOf = (\<lambda>z. map geometry
      (filter (\<lambda>srf. 2 \<le> type srf \<and> type srf < 3) (surfaces z)))"
    by (rule ext) (simp add: floorsOf_def py_int_eq_2)
  finally show ?thesis .
qed

theorem allFloors_truncated_code_witness:
  "map_sum id allFloors (main direct_hive [Some office, Some cellar] 1 True None)
     = Inr [1, 2, 3, 7]"
proof -
  have "\<exists>out. main direct_hive [Some office, Some cellar] 1 True None = Inr out"
    by (rule main_total) (simp add: standardFlowRate_usable usablePressure_def)
  then obtain out :: "nat outputs"
    where m: "main direct_hive [Some office, Some cellar] 1 True None = Inr out" ..
  from allFloors_truncated_code [OF m] have "allFloors out = [1, 2, 3, 7]"
    by (simp add: direct_hive_def office_def cellar_def)
  with m show ?thesis by simp
qed

text \<open>
  Claim C10: whenever \<open>main\<close> returns, \<open>allExposed\<close> is, zone after zone and in the
  order of the surfaces, exactly the geometries of the surfaces whose boundary condition
  equals \<open>outdoors\<close> up to the case of its letters.
\<close>

theorem allExposed_outdoors:
  assumes "main hb_hive HBZones r u bp = Inr out"
  shows "allExposed out = concat (map (\<lambda>z. map geometry
           (filter (\<lambda>srf. equal_ignoring_case (BC srf) ''outdoors'') (surfaces z)))
           (hb_hive HBZones))"
proof -
  from main_fields [OF assms]
  have "allExposed out = concat (map exposedOf (hb_hive HBZones))" by blast
  also have "exposedOf = (\<lambda>z. map geometry
      (filter (\<lambda>srf. equal_ignoring_case (BC srf) ''outdoors'') (surfaces z)))"
    by (rule ext) (simp add: exposedOf_def lower_is_outdoors)
  finally show ?thesis .
qed

theorem allExposed_outdoors_witness:
  "map_sum id allExposed (main direct_hive [Some office, Some cellar] 1 True None)
     = Inr [3, 4, 5]"
proof -
  have "\<exists>out. main direct_hive [Some office, Some cellar] 1 True None = Inr out"
    by (rule main_total) (simp add: standardFlowRate_usable usablePressure_def)
  then obtain out :: "nat outputs"
    where m: "main direct_hive [Some office, Some cellar] 1 True None = Inr out" ..
  have "concat (map (\<lambda>z. map geometry
           (filter (\<lambda>srf. equal_ignoring_case (BC srf) ''outdoors'') (surfaces z)))
           (direct_hive [Some office, Some cellar])) = [3, 4, 5]"
    by code_simp
  with allExposed_outdoors [OF m] have "allExposed out = [3, 4, 5]" by simp
  with m show ?thesis by simp
qed

section \<open>The two intensity lists\<close>

text \<open>
  Claim C6: whenever \<open>main\<close> returns, \<open>infPerAreaFacade\<close> and \<open>ventPerAreaFloor\<close>
  have one element for each zone the hive resolved, and the element at position \<open>i\<close>
  is the one computed from the flow rate and the areas of the zone at position \<open>i\<close>.
\<close>

theorem one_output_per_zone:
  assumes "main hb_hive HBZones r u bp = Inr out"
  shows "length (infPerAreaFacade out) = length (hb_hive HBZones) \<and>
    length (ventPerAreaFloor out) = length (hb_hive HBZones) \<and>
    (\<forall>i<length (hb_hive HBZones). \<exists>flow.
       standardFlowRate r u bp (hb_hive HBZones ! i) = Inr flow \<and>
       infPerAreaFacade out ! i = perArea flow (getExposedArea (hb_hive HBZones ! i)) \<and>
       ventPerAreaFloor out ! i = perArea flow (getFloorArea (hb_hive HBZones ! i)))"
  using main_lengths [OF assms] main_nth [OF assms] by blast

theorem one_output_per_zone_witness:
  "map_sum id infPerAreaFacade (main direct_hive [Some office, Some core] 1 True None)
     = Inr [1 / 1800, 0]
   \<and> map_sum id ventPerAreaFloor (main direct_hive [Some office, Some core] 1 True None)
     = Inr [1 / 720, 1 / 720]"
proof -
  let ?zs = "direct_hive [Some office, Some core]"
  have "\<exists>out. main direct_hive [Some office, Some core] 1 True None = Inr out"
    by (rule main_total) (simp add: standardFlowRate_usable usablePressure_def)
  then obtain out :: "nat outputs"
    where m: "main direct_hive [Some office, Some core] 1 True None = Inr out" ..
  have zs: "?zs = [office, core]" by (simp add: direct_hive_def)
  have flows: "standardFlowRate 1 True None office = Inr (1 / 36)"
    "standardFlowRate 1 True None core = Inr (1 / 36)"
    by (simp_all add: standardFlowRate_def baseFlowRate_def blowerConversion_def
        office_def core_def)
  from one_output_per_zone [OF m] zs
  have len: "length (infPerAreaFacade out) = 2" "length (ventPerAreaFloor out) = 2"
    and nth: "\<forall>i<2. \<exists>flow. standardFlowRate 1 True None ([office, core] ! i) = Inr flow \<and>
       infPerAreaFacade out ! i = perArea flow (getExposedArea ([office, core] ! i)) \<and>
       ventPerAreaFloor out ! i = perArea flow (getFloorArea ([office, core] ! i))"
    by simp_all
  from nth [rule_format, of 0] flows
  have z0: "infPerAreaFacade out ! 0 = 1 / 1800" "ventPerAreaFloor out ! 0 = 1 / 720"
    by (auto simp add: perArea_def office_def)
  from nth [rule_format, of 1] flows
  have z1: "infPerAreaFacade out ! 1 = 0" "ventPerAreaFloor out ! 1 = 1 / 720"
    by (auto simp add: perArea_def core_def)
  have two: "xs = [xs ! 0, xs ! 1]" if "length xs = 2" for xs :: "real list"
    using that by (cases xs; cases "tl xs") auto
  have "infPerAreaFacade out = [infPerAreaFacade out ! 0, infPerAreaFacade out ! 1]"
    by (rule two [OF len(1)])
  then have fac: "infPerAreaFacade out = [1 / 1800, 0]"
    unfolding z0(1) z1(1) .
  have "ventPerAreaFloor out = [ventPerAreaFloor out ! 0, ventPerAreaFloor out ! 1]"
    by (rule two [OF len(2)])
  then have flr: "ventPerAreaFloor out = [1 / 720, 1 / 720]"
    unfolding z0(2) z1(2) .
  show ?thesis unfolding m by (simp only: map_sum.simps id_apply fac flr)
qed

section \<open>The flow rate of a zone\<close>

text \<open>
  Claim C3: with the unit that \<open>checkInputs\<close> returns, the flow rate before any
  pressure conversion is \<open>rate * volume / 3600\<close> when the ACH flag is true or unset,
  and the product \<open>rate * exposedArea\<close> when the flag is false. The product is Python's:
  for an exposed area \<open>a\<close> it is the number \<open>rate * a\<close>.
\<close>

theorem base_flow_rate_by_unit:
  assumes "checkInputs r HBZones flag = Inr (checkData, unit, msgs)"
  shows "(flag = None \<or> flag = Some True \<longrightarrow>
            unit \<and> baseFlowRate r unit z = Inr (r * getZoneVolume z / 3600)) \<and>
         (flag = Some False \<longrightarrow>
            \<not> unit \<and> baseFlowRate r unit z = multiply_by r (getExposedArea z) \<and>
            (\<forall>a. getExposedArea z = Some a \<longrightarrow> baseFlowRate r unit z = Inr (r * a)))"
proof -
  from checkInputs_unit [OF assms] have unit: "unit = (flag \<noteq> Some False)" .
  show ?thesis
  proof (cases "flag = Some False")
    case True
    with unit have "\<not> unit" by simp
    with True show ?thesis by (simp add: baseFlowRate_area)
  next
    case False
    with unit have "unit" by simp
    with False show ?thesis by (simp add: baseFlowRate_ACH)
  qed
qed

theorem base_flow_rate_by_unit_witness:
  "baseFlowRate (1 / 2) True office = Inr (1 / 72)
   \<and> baseFlowRate (1 / 2) False office = Inr 25"
proof -
  have ach: "checkInputs (1 / 2) [Some office] None = Inr (True, True, [])"
    by (simp add: checkInputs_def)
  have area: "checkInputs (1 / 2) [Some office] (Some False) = Inr (True, False, [])"
    by (simp add: checkInputs_def)
  have exposed: "getExposedArea office = Some 50" and volume: "getZoneVolume office = 100"
    by (simp_all add: office_def)
  from base_flow_rate_by_unit [OF ach, of office] volume
  have "baseFlowRate (1 / 2) True office = Inr (1 / 72)" by simp
  moreover from base_flow_rate_by_unit [OF area, of office] exposed
  have "baseFlowRate (1 / 2) False office = Inr 25" by simp
  ultimately show ?thesis by simp
qed

text \<open>
  Claim C4, as the spec states it: for every blower pressure that is present and not
  zero the flow is the base flow divided by \<open>(pressure / 4) ^ 0.63\<close>. For a negative
  pressure \<open>math.pow\<close> raises a \<open>ValueError\<close>, and for the least positive double
  \<open>pressure / 4\<close> is zero, so is the power, and the division of line 100 raises a
  \<open>ZeroDivisionError\<close>: in both cases the zone has no flow rate at all.
\<close>

theorem flow_rate_value_error_counterexample:
  "standardFlowRate 1 True (Some (- 50)) office = Inl ValueError
   \<and> standardFlowRate 1 True (Some least_double) office = Inl ZeroDivisionError"
proof -
  have base: "baseFlowRate 1 True office = Inr (1 * getZoneVolume office / 3600)"
    by (rule baseFlowRate_ACH)
  have "blowerConversion (Some (- 50)) (1 * getZoneVolume office / 3600) = Inl ValueError"
    by (rule blowerConversion_negative, rule pressure_clear_of_underflow) simp
  with standardFlowRate_base [OF base, of "Some (- 50)"]
  have negative: "standardFlowRate 1 True (Some (- 50)) office = Inl ValueError"
    by (simp only:)
  have "blowerConversion (Some least_double) (1 * getZoneVolume office / 3600)
      = Inl ZeroDivisionError"
    using least_double_bounds(1) by (intro blowerConversion_underflow) simp_all
  with standardFlowRate_base [OF base, of "Some least_double"]
  have "standardFlowRate 1 True (Some least_double) office = Inl ZeroDivisionError"
    by (simp only:)
  with negative show ?thesis by (simp only: simp_thms)
qed

text \<open>
  Claim C4, amended: for a zone with base flow \<open>base\<close>, when the blower pressure is
  present and above \<open>2 ^ -1073\<close> (twice the least positive double, so that a quarter of
  it is a positive double) the flow is \<open>base / (pressure / 4) ^ 0.63\<close>, in exact
  arithmetic, and when it is absent or zero the flow is \<open>base\<close> itself. In both cases
  the body of the zone loop appends the two intensities computed from that one flow.
\<close>

theorem blower_conversion_formula:
  assumes "baseFlowRate r u z = Inr base"
  shows "(2 * least_double < p \<longrightarrow>
      standardFlowRate r u (Some p) z = Inr (base / (p / 4) powr 0.63) \<and>
      (\<exists>out'. zoneBody r u (Some p) out z = Inr out' \<and>
         infPerAreaFacade out' = infPerAreaFacade out
           @ [perArea (base / (p / 4) powr 0.63) (getExposedArea z)] \<and>
         ventPerAreaFloor out' = ventPerAreaFloor out
           @ [perArea (base / (p / 4) powr 0.63) (getFloorArea z)])) \<and>
    (bp = None \<or> bp = Some 0 \<longrightarrow>
      standardFlowRate r u bp z = Inr base \<and>
      (\<exists>out'. zoneBody r u bp out z = Inr out' \<and>
         infPerAreaFacade out' = infPerAreaFacade out @ [perArea base (getExposedArea z)] \<and>
         ventPerAreaFloor out' = ventPerAreaFloor out @ [perArea base (getFloorArea z)]))"
proof (intro conjI impI)
  assume p: "2 * least_double < p"
  from standardFlowRate_base [OF assms, of "Some p"] blowerConversion_positive [OF p, of base]
  show flow: "standardFlowRate r u (Some p) z = Inr (base / (p / 4) powr 0.63)"
    by (simp only:)
  from zoneBody_fields [OF flow, of out]
  show "\<exists>out'. zoneBody r u (Some p) out z = Inr out' \<and>
         infPerAreaFacade out' = infPerAreaFacade out
           @ [perArea (base / (p / 4) powr 0.63) (getExposedArea z)] \<and>
         ventPerAreaFloor out' = ventPerAreaFloor out
           @ [perArea (base / (p / 4) powr 0.63) (getFloorArea z)]"
    by blast
next
  assume "bp = None \<or> bp = Some 0"
  then have "blowerConversion bp base = Inr base"
    by (auto simp add: blowerConversion_identity)
  with standardFlowRate_base [OF assms, of bp]
  show flow: "standardFlowRate r u bp z = Inr base" by (simp only:)
  from zoneBody_fields [OF flow, of out]
  show "\<exists>out'. zoneBody r u bp out z = Inr out' \<and>
         infPerAreaFacade out' = infPerAreaFacade out @ [perArea base (getExposedArea z)] \<and>
         ventPerAreaFloor out' = ventPerAreaFloor out @ [perArea base (getFloorArea z)]"
    by blast
qed

theorem blower_conversion_formula_witness:
  "standardFlowRate (1 / 2) True (Some 50) office = Inr (1 / 72 / (50 / 4) powr 0.63)
   \<and> standardFlowRate (1 / 2) True (Some 0) office = Inr (1 / 72)"
proof -
  have base: "baseFlowRate (1 / 2) True office = Inr (1 / 72)"
    by (simp add: baseFlowRate_def office_def)
  have "2 * least_double < (50 :: real)"
    by (rule pressure_clear_of_underflow) simp
  with blower_conversion_formula [OF base, of 50 no_outputs "Some 0"]
  show ?thesis by simp
qed

text \<open>
  Claim C8, as the spec states it: for every zone and every blower pressure above 4 the
  converted flow is strictly below the unconverted one. The core zone has no exposed
  area, so in area mode its flow is 0 with and without the conversion.
\<close>

theorem zero_flow_counterexample:
  "standardFlowRate 1 False (Some 50) core = Inr 0
   \<and> standardFlowRate 1 False None core = Inr 0"
proof -
  have base: "baseFlowRate 1 False core = Inr 0"
    by (simp add: baseFlowRate_def core_def)
  have "blowerConversion (Some 50) 0 = Inr (0 / (50 / 4) powr 0.63)"
    by (rule blowerConversion_positive, rule pressure_clear_of_underflow) simp
  with standardFlowRate_base [OF base, of "Some 50"]
    standardFlowRate_base [OF base, of None] blowerConversion_identity(1) [of 0]
  show ?thesis by simp
qed

text \<open>
  Claim C8, amended: for every zone whose unconverted flow is positive and every blower
  pressure above 4, the converted flow is strictly below the unconverted one.
\<close>

theorem pressure_conversion_lowers_flow:
  assumes "4 < p" and "baseFlowRate r u z = Inr base" and "0 < base"
  shows "\<exists>converted. standardFlowRate r u (Some p) z = Inr converted \<and>
           standardFlowRate r u None z = Inr base \<and> converted < base"
proof -
  from assms(1) have p: "2 * least_double < p"
    by (intro pressure_clear_of_underflow) simp
  from assms(1) have "1 < p / 4" by simp
  then have d: "1 < (p / 4) powr 0.63" by (rule gr_one_powr) simp
  from standardFlowRate_base [OF assms(2), of "Some p"] blowerConversion_positive [OF p, of base]
  have conv: "standardFlowRate r u (Some p) z = Inr (base / (p / 4) powr 0.63)"
    by (simp only:)
  from standardFlowRate_base [OF assms(2), of None] blowerConversion_identity(1) [of base]
  have plain: "standardFlowRate r u None z = Inr base" by (simp only:)
  from d assms(3) have "base / (p / 4) powr 0.63 < base"
    by (simp add: divide_less_eq)
  with conv plain show ?thesis by blast
qed

theorem pressure_conversion_lowers_flow_witness:
  "\<exists>converted. standardFlowRate (1 / 2) True (Some 50) office = Inr converted \<and>
     standardFlowRate (1 / 2) True None office = Inr (1 / 72) \<and> converted < 1 / 72"
proof -
  have base: "baseFlowRate (1 / 2) True office = Inr (1 / 72)"
    by (simp add: baseFlowRate_def office_def)
  from pressure_conversion_lowers_flow [OF _ base, of 50] show ?thesis by simp
qed

section \<open>Exceptions and zones without area\<close>

text \<open>
  Claim C2, as the spec states it: for every rate, zone list and optional test pressure
  no exception leaves the zone loop. Line 100 is outside any \<open>try\<close>: with the test
  pressure -50 the call of \<open>math.pow\<close> raises a \<open>ValueError\<close>, and with the least
  positive double as test pressure \<open>pressure / 4\<close> is zero, so is the power, and the
  division raises a \<open>ZeroDivisionError\<close>. In area mode a zone whose exposed area is
  absent ends \<open>main\<close> with the \<open>TypeError\<close> of the product on line 96.
\<close>

theorem main_raises_counterexample:
  "main direct_hive [Some office] 1 True (Some (- 50)) = Inl ValueError
   \<and> main direct_hive [Some office] 1 True (Some least_double) = Inl ZeroDivisionError
   \<and> main direct_hive [Some office, Some shell] (1 / 2) False (Some 50) = Inl TypeError"
proof -
  have zs: "direct_hive [Some office, Some shell] = [office, shell]"
    by (simp add: direct_hive_def)
  have base: "baseFlowRate (1 / 2) False office = Inr 25"
    by (simp add: baseFlowRate_def office_def)
  have "blowerConversion (Some 50) 25 = Inr (25 / (50 / 4) powr 0.63)"
    by (rule blowerConversion_positive, rule pressure_clear_of_underflow) simp
  with standardFlowRate_base [OF base, of "Some 50"]
  have "standardFlowRate (1 / 2) False (Some 50) office = Inr (25 / (50 / 4) powr 0.63)"
    by (simp only:)
  from zoneBody_fields [OF this, of no_outputs] obtain out1
    where out1: "zoneBody (1 / 2) False (Some 50) no_outputs office = Inr out1" by blast
  have "zoneBody (1 / 2) False (Some 50) out1 shell = Inl TypeError"
    by (rule zoneBody_error) (simp add: standardFlowRate_def baseFlowRate_def shell_def)
  with out1 have area: "main direct_hive [Some office, Some shell] (1 / 2) False (Some 50)
      = Inl TypeError"
    by (simp add: main_def zs)
  have ach: "baseFlowRate 1 True office = Inr (1 * getZoneVolume office / 3600)"
    by (rule baseFlowRate_ACH)
  have "blowerConversion (Some (- 50)) (1 * getZoneVolume office / 3600) = Inl ValueError"
    by (rule blowerConversion_negative, rule pressure_clear_of_underflow) simp
  with standardFlowRate_base [OF ach, of "Some (- 50)"]
  have "standardFlowRate 1 True (Some (- 50)) office = Inl ValueError"
    by (simp only:)
  then have "zoneBody 1 True (Some (- 50)) no_outputs office = Inl ValueError"
    by (rule zoneBody_error)
  then have negative: "main direct_hive [Some office] 1 True (Some (- 50)) = Inl ValueError"
    by (simp add: main_def direct_hive_def)
  have "blowerConversion (Some least_double) (1 * getZoneVolume office / 3600)
      = Inl ZeroDivisionError"
    using least_double_bounds(1) by (intro blowerConversion_underflow) simp_all
  with standardFlowRate_base [OF ach, of "Some least_double"]
  have "standardFlowRate 1 True (Some least_double) office = Inl ZeroDivisionError"
    by (simp only:)
  then have "zoneBody 1 True (Some least_double) no_outputs office = Inl ZeroDivisionError"
    by (rule zoneBody_error)
  then have "main direct_hive [Some office] 1 True (Some least_double) = Inl ZeroDivisionError"
    by (simp add: main_def direct_hive_def)
  with negative area show ?thesis by (simp only: simp_thms)
qed

text \<open>
  Claim C2, amended: when the test pressure is absent, zero or above \<open>2 ^ -1073\<close>
  (twice the least positive double) and, in area mode, every zone has an exposed area,
  no exception leaves the zone loop: \<open>main\<close> returns, both intensity lists have one
  element for each zone, and every division that fails on an absent or zero area gives
  the value 0 with its warning, printed and added as a runtime message. The runtime
  messages are exactly these warnings, zone after zone.
\<close>

theorem no_exception_for_usable_inputs:
  assumes "bp = None \<or> bp = Some 0 \<or> (\<exists>p. bp = Some p \<and> 2 * least_double < p)"
    and "u \<or> (\<forall>z\<in>set (hb_hive HBZones). getExposedArea z \<noteq> None)"
  shows "\<exists>out. main hb_hive HBZones r u bp = Inr out \<and>
    length (infPerAreaFacade out) = length (hb_hive HBZones) \<and>
    length (ventPerAreaFloor out) = length (hb_hive HBZones) \<and>
    runtimeMessages out = concat (map warningsOf (hb_hive HBZones)) \<and>
    (\<forall>i<length (hb_hive HBZones).
       (noArea (getExposedArea (hb_hive HBZones ! i)) \<longrightarrow>
          infPerAreaFacade out ! i = 0 \<and> facade_warning \<in> set (runtimeMessages out) \<and>
          TextLine facade_warning \<in> set (printed out)) \<and>
       (noArea (getFloorArea (hb_hive HBZones ! i)) \<longrightarrow>
          ventPerAreaFloor out ! i = 0 \<and> floor_warning \<in> set (runtimeMessages out) \<and>
          TextLine floor_warning \<in> set (printed out)))"
proof -
  from main_usable [where hb_hive = hb_hive and HBZones = HBZones, OF assms] obtain out
    where m: "main hb_hive HBZones r u bp = Inr out" ..
  from main_fields [OF m]
  have msgs: "runtimeMessages out = concat (map warningsOf (hb_hive HBZones))" by blast
  have "(noArea (getExposedArea (hb_hive HBZones ! i)) \<longrightarrow>
          infPerAreaFacade out ! i = 0 \<and> facade_warning \<in> set (runtimeMessages out) \<and>
          TextLine facade_warning \<in> set (printed out)) \<and>
       (noArea (getFloorArea (hb_hive HBZones ! i)) \<longrightarrow>
          ventPerAreaFloor out ! i = 0 \<and> floor_warning \<in> set (runtimeMessages out) \<and>
          TextLine floor_warning \<in> set (printed out))"
    if i: "i < length (hb_hive HBZones)" for i
    using main_nth [OF m i] by (auto simp add: noArea_perArea dest: noArea_warnings)
  with m msgs main_lengths [OF m] show ?thesis by blast
qed

theorem no_exception_for_usable_inputs_witness:
  "\<exists>out. main direct_hive [Some office, Some core] 1 False (Some 50) = Inr out \<and>
     length (infPerAreaFacade out) = 2 \<and> length (ventPerAreaFloor out) = 2 \<and>
     infPerAreaFacade out ! 1 = 0 \<and> runtimeMessages out = [facade_warning] \<and>
     TextLine facade_warning \<in> set (printed out)"
proof -
  have "2 * least_double < (50 :: real)"
    by (rule pressure_clear_of_underflow) simp
  then have pressure: "Some (50 :: real) = None \<or> Some (50 :: real) = Some 0 \<or>
      (\<exists>p. Some (50 :: real) = Some p \<and> 2 * least_double < p)" by simp
  have floors: "getFloorArea office = Some 20" "getFloorArea core = Some 20"
    by (simp_all add: office_def core_def)
  have zs: "direct_hive [Some office, Some core] = [office, core]"
    by (simp add: direct_hive_def)
  have areas: "getExposedArea office = Some 50" "getExposedArea core = Some 0"
    by (simp_all add: office_def core_def)
  have "\<forall>z\<in>set (direct_hive [Some office, Some core]). getExposedArea z \<noteq> None"
    by (simp add: zs areas)
  then have "False \<or> (\<forall>z\<in>set (direct_hive [Some office, Some core]). getExposedArea z \<noteq> None)" ..
  from no_exception_for_usable_inputs [where hb_hive = direct_hive
      and HBZones = "[Some office, Some core]" and bp = "Some 50" and r = 1,
      OF pressure this]
  obtain out where
    m: "main direct_hive [Some office, Some core] 1 False (Some 50) = Inr out"
    and len: "length (infPerAreaFacade out) = length (direct_hive [Some office, Some core])"
      "length (ventPerAreaFloor out) = length (direct_hive [Some office, Some core])"
    and msgs: "runtimeMessages out
      = concat (map warningsOf (direct_hive [Some office, Some core]))"
    and each: "\<forall>i<length (direct_hive [Some office, Some core]).
       (noArea (getExposedArea (direct_hive [Some office, Some core] ! i)) \<longrightarrow>
          infPerAreaFacade out ! i = 0 \<and> facade_warning \<in> set (runtimeMessages out) \<and>
          TextLine facade_warning \<in> set (printed out)) \<and>
       (noArea (getFloorArea (direct_hive [Some office, Some core] ! i)) \<longrightarrow>
          ventPerAreaFloor out ! i = 0 \<and> floor_warning \<in> set (runtimeMessages out) \<and>
          TextLine floor_warning \<in> set (printed out))"
    by auto
  from each [rule_format, of 1]
  have "infPerAreaFacade out ! 1 = 0 \<and> TextLine facade_warning \<in> set (printed out)"
    by (simp add: zs areas noArea_def)
  moreover from msgs have "runtimeMessages out = [facade_warning]"
    by (simp add: zs areas floors warningsOf_def noArea_def)
  ultimately show ?thesis using m len by (simp add: zs)
qed

text \<open>
  Claim C5, as the spec states it: every zone whose exposed area is zero or absent gets
  the intensity 0 and the loop goes on. In area mode the product \<open>rate * exposedArea\<close>
  of line 96 is outside the \<open>try\<close>: for the shell, whose exposed area is absent, it
  raises a \<open>TypeError\<close> and \<open>main\<close> ends with it. And for the core zone, whose
  exposed area is zero, line 100 ends \<open>main\<close> before any intensity is appended: with
  the \<open>ValueError\<close> of \<open>math.pow\<close> for the test pressure -4, and with the
  \<open>ZeroDivisionError\<close> of the division by the power for the test pressure
  \<open>2 ^ -1073\<close>, a quarter of which rounds to zero.
\<close>

theorem zero_or_absent_area_raises_counterexample:
  "main direct_hive [Some shell] 1 False None = Inl TypeError
   \<and> main direct_hive [Some core] 1 True (Some (- 4)) = Inl ValueError
   \<and> main direct_hive [Some core] 1 True (Some (2 * least_double)) = Inl ZeroDivisionError"
proof -
  have ach: "baseFlowRate 1 True core = Inr (1 * getZoneVolume core / 3600)"
    by (rule baseFlowRate_ACH)
  have "blowerConversion (Some (- 4)) (1 * getZoneVolume core / 3600) = Inl ValueError"
    by (rule blowerConversion_negative, rule pressure_clear_of_underflow) simp
  with standardFlowRate_base [OF ach, of "Some (- 4)"]
  have "standardFlowRate 1 True (Some (- 4)) core = Inl ValueError"
    by (simp only:)
  then have "zoneBody 1 True (Some (- 4)) no_outputs core = Inl ValueError"
    by (rule zoneBody_error)
  then have negative: "main direct_hive [Some core] 1 True (Some (- 4)) = Inl ValueError"
    by (simp add: main_def direct_hive_def)
  have "blowerConversion (Some (2 * least_double)) (1 * getZoneVolume core / 3600)
      = Inl ZeroDivisionError"
    using least_double_bounds(1) by (intro blowerConversion_underflow) simp_all
  with standardFlowRate_base [OF ach, of "Some (2 * least_double)"]
  have "standardFlowRate 1 True (Some (2 * least_double)) core = Inl ZeroDivisionError"
    by (simp only:)
  then have "zoneBody 1 True (Some (2 * least_double)) no_outputs core
      = Inl ZeroDivisionError"
    by (rule zoneBody_error)
  then have tiny: "main direct_hive [Some core] 1 True (Some (2 * least_double))
      = Inl ZeroDivisionError"
    by (simp add: main_def direct_hive_def)
  have "baseFlowRate 1 False shell = Inl TypeError"
    by (simp add: baseFlowRate_def shell_def)
  then have "standardFlowRate 1 False None shell = Inl TypeError"
    by (simp add: standardFlowRate_def)
  then have "zoneBody 1 False None no_outputs shell = Inl TypeError"
    by (rule zoneBody_error)
  then have "main direct_hive [Some shell] 1 False None = Inl TypeError"
    by (simp add: main_def direct_hive_def)
  with negative tiny show ?thesis by (simp only: simp_thms)
qed

text \<open>
  Claim C5, amended: when the test pressure is absent, zero or above \<open>2 ^ -1073\<close>
  (twice the least positive double) and, in area mode, every zone has an exposed area,
  \<open>main\<close> returns with one element for each zone
  in both intensity lists, and for every zone: if its exposed area is zero or absent, its
  facade intensity is 0, the facade warning is emitted and its floor intensity is still
  the one computed from its flow and its floor area; and the same with the two areas
  exchanged.
\<close>

theorem zero_area_yields_zero:
  assumes "bp = None \<or> bp = Some 0 \<or> (\<exists>p. bp = Some p \<and> 2 * least_double < p)"
    and "u \<or> (\<forall>z\<in>set (hb_hive HBZones). getExposedArea z \<noteq> None)"
    and "i < length (hb_hive HBZones)"
  shows "\<exists>out flow. main hb_hive HBZones r u bp = Inr out \<and>
    standardFlowRate r u bp (hb_hive HBZones ! i) = Inr flow \<and>
    length (infPerAreaFacade out) = length (hb_hive HBZones) \<and>
    length (ventPerAreaFloor out) = length (hb_hive HBZones) \<and>
    (noArea (getExposedArea (hb_hive HBZones ! i)) \<longrightarrow>
       infPerAreaFacade out ! i = 0 \<and> facade_warning \<in> set (runtimeMessages out) \<and>
       ventPerAreaFloor out ! i = perArea flow (getFloorArea (hb_hive HBZones ! i))) \<and>
    (noArea (getFloorArea (hb_hive HBZones ! i)) \<longrightarrow>
       ventPerAreaFloor out ! i = 0 \<and> floor_warning \<in> set (runtimeMessages out) \<and>
       infPerAreaFacade out ! i = perArea flow (getExposedArea (hb_hive HBZones ! i)))"
proof -
  from main_usable [where hb_hive = hb_hive and HBZones = HBZones, OF assms(1,2)]
  obtain out where m: "main hb_hive HBZones r u bp = Inr out" ..
  from main_nth [OF m assms(3)] obtain flow where
    flow: "standardFlowRate r u bp (hb_hive HBZones ! i) = Inr flow"
    and fac: "infPerAreaFacade out ! i = perArea flow (getExposedArea (hb_hive HBZones ! i))"
    and flr: "ventPerAreaFloor out ! i = perArea flow (getFloorArea (hb_hive HBZones ! i))"
    and msgs: "set (warningsOf (hb_hive HBZones ! i)) \<subseteq> set (runtimeMessages out)"
    by blast
  from fac flr msgs
  have "(noArea (getExposedArea (hb_hive HBZones ! i)) \<longrightarrow>
       infPerAreaFacade out ! i = 0 \<and> facade_warning \<in> set (runtimeMessages out) \<and>
       ventPerAreaFloor out ! i = perArea flow (getFloorArea (hb_hive HBZones ! i))) \<and>
    (noArea (getFloorArea (hb_hive HBZones ! i)) \<longrightarrow>
       ventPerAreaFloor out ! i = 0 \<and> floor_warning \<in> set (runtimeMessages out) \<and>
       infPerAreaFacade out ! i = perArea flow (getExposedArea (hb_hive HBZones ! i)))"
    by (auto simp add: noArea_perArea dest: noArea_warnings)
  with m flow main_lengths [OF m] show ?thesis by blast
qed

theorem zero_area_yields_zero_witness:
  "\<exists>out. main direct_hive [Some core, Some office] 1 True None = Inr out \<and>
     length (infPerAreaFacade out) = 2 \<and> length (ventPerAreaFloor out) = 2 \<and>
     infPerAreaFacade out ! 0 = 0 \<and> facade_warning \<in> set (runtimeMessages out) \<and>
     ventPerAreaFloor out ! 0 = 1 / 720"
proof -
  have zs: "direct_hive [Some core, Some office] = [core, office]"
    by (simp add: direct_hive_def)
  have flow: "standardFlowRate 1 True None core = Inr (1 / 36)"
    by (simp add: standardFlowRate_def baseFlowRate_def blowerConversion_def core_def)
  have areas: "getExposedArea core = Some 0" "getFloorArea core = Some 20"
    by (simp_all add: core_def)
  have "0 < length (direct_hive [Some core, Some office])" by (simp add: zs)
  from zero_area_yields_zero [where hb_hive = direct_hive
      and HBZones = "[Some core, Some office]" and bp = None and u = True and r = 1
      and i = 0, OF _ _ this]
  show ?thesis by (auto simp add: zs flow areas noArea_def perArea_def)
qed

text \<open>
  Claim C9, as the spec states it: in area mode without pressure conversion the facade
  intensity of every zone equals the rate. For the core zone, whose exposed area is 0,
  the division fails and the output is 0 for the rate 1. For the shell, whose exposed
  area is absent, there is no output at all.
\<close>

theorem area_mode_not_rate_counterexample:
  "map_sum id infPerAreaFacade (main direct_hive [Some core] 1 False None) = Inr [0]
   \<and> main direct_hive [Some shell] 2 False (Some 0) = Inl TypeError"
  by code_simp

text \<open>
  Claim C9, amended: in area mode without pressure conversion, when every zone has an
  exposed area, \<open>main\<close> returns and the facade intensity of every zone whose exposed
  area is not zero equals the rate (in exact arithmetic).
\<close>

theorem area_mode_identity:
  assumes "bp = None \<or> bp = Some 0"
    and "\<forall>z\<in>set (hb_hive HBZones). getExposedArea z \<noteq> None"
  shows "\<exists>out. main hb_hive HBZones r False bp = Inr out \<and>
    length (infPerAreaFacade out) = length (hb_hive HBZones) \<and>
    (\<forall>i<length (hb_hive HBZones).
       getExposedArea (hb_hive HBZones ! i) \<noteq> Some 0 \<longrightarrow> infPerAreaFacade out ! i = r)"
proof -
  from assms(1)
  have "bp = None \<or> bp = Some 0 \<or> (\<exists>p. bp = Some p \<and> 2 * least_double < p)" by auto
  moreover from assms(2)
  have "False \<or> (\<forall>z\<in>set (hb_hive HBZones). getExposedArea z \<noteq> None)" ..
  ultimately have "\<exists>out. main hb_hive HBZones r False bp = Inr out"
    by (rule main_usable [where hb_hive = hb_hive and HBZones = HBZones])
  then obtain out where m: "main hb_hive HBZones r False bp = Inr out" ..
  have "infPerAreaFacade out ! i = r"
    if i: "i < length (hb_hive HBZones)"
      and nz: "getExposedArea (hb_hive HBZones ! i) \<noteq> Some 0" for i
  proof -
    from i assms(2) have "getExposedArea (hb_hive HBZones ! i) \<noteq> None" by simp
    with nz obtain a where a: "getExposedArea (hb_hive HBZones ! i) = Some a" "a \<noteq> 0"
      by auto
    then have "baseFlowRate r False (hb_hive HBZones ! i) = Inr (r * a)"
      by (simp add: baseFlowRate_area)
    from standardFlowRate_base [OF this, of bp] assms(1)
    have "standardFlowRate r False bp (hb_hive HBZones ! i) = Inr (r * a)"
      by (auto simp add: blowerConversion_identity)
    with main_nth [OF m i] a show ?thesis by (auto simp add: perArea_def)
  qed
  with m main_lengths(1) [OF m] show ?thesis by blast
qed

theorem area_mode_identity_witness:
  "\<exists>out. main direct_hive [Some office, Some core] (3 / 10) False None = Inr out \<and>
     length (infPerAreaFacade out) = 2 \<and> infPerAreaFacade out ! 0 = 3 / 10"
proof -
  have zs: "direct_hive [Some office, Some core] = [office, core]"
    by (simp add: direct_hive_def)
  have areas: "getExposedArea office = Some 50" "getExposedArea core = Some 0"
    by (simp_all add: office_def core_def)
  have "\<forall>z\<in>set (direct_hive [Some office, Some core]). getExposedArea z \<noteq> None"
    by (simp add: zs areas)
  from area_mode_identity [where hb_hive = direct_hive
      and HBZones = "[Some office, Some core]" and bp = None and r = "3 / 10", OF _ this]
  obtain out where
    m: "main direct_hive [Some office, Some core] (3 / 10) False None = Inr out"
    and len: "length (infPerAreaFacade out) = length (direct_hive [Some office, Some core])"
    and each: "\<forall>i<length (direct_hive [Some office, Some core]).
       getExposedArea (direct_hive [Some office, Some core] ! i) \<noteq> Some 0 \<longrightarrow>
       infPerAreaFacade out ! i = 3 / 10"
    by auto
  from each [rule_format, of 0] have "infPerAreaFacade out ! 0 = 3 / 10"
    by (simp add: zs areas)
  with m len show ?thesis by (simp add: zs)
qed

section \<open>Invalid input\<close>

text \<open>
  Claim C7, as the spec states it: when the air flow rate is negative or the first zone
  is \<open>None\<close>, validation fails, the condition is reported to the caller, \<open>main\<close>
  does not run and no output is produced. For a \<open>None\<close> first zone with a valid rate
  nothing is reported: \<open>checkInputs\<close> prints no message and adds no runtime warning,
  and the module entry leaves the same empty result as when the Honeybee check has
  failed and nothing was validated at all.
\<close>

theorem silent_missing_zone_counterexample:
  "checkInputs (1 / 2) [None, Some office] None = Inr (False, True, [])
   \<and> component direct_hive True [None, Some office] (1 / 2) None None = Inr ([], None)
   \<and> component direct_hive False [None, Some office] (1 / 2) None None = Inr ([], None)"
  by (simp add: checkInputs_def component_def)

text \<open>
  Claim C7, amended: when the air flow rate is negative or the first zone is \<open>None\<close>,
  \<open>checkInputs\<close> (called on a non-empty zone list, as the module entry does) returns
  \<open>checkData = False\<close>, and the module entry, whatever the Honeybee check gave, does
  not call \<open>main\<close> and assigns no output. The condition is reported by the warning
  about the rate exactly when the rate is negative; a \<open>None\<close> first zone alone is
  rejected without any message.
\<close>

theorem invalid_input_blocks_batch:
  assumes "r < 0 \<or> (\<exists>rest. HBZones = None # rest)"
  shows "(HBZones \<noteq> [] \<longrightarrow>
           (\<exists>unit. checkInputs r HBZones flag
              = Inr (False, unit, if r < 0 then [negative_rate_msg] else []))) \<and>
         component hb_hive initCheck HBZones r flag bp
           = Inr (if HBZones \<noteq> [] \<and> initCheck \<and> r < 0 then [negative_rate_msg] else [], None)"
proof (cases HBZones)
  case Nil
  then show ?thesis by (simp add: component_def)
next
  case (Cons h hs)
  with assms have bad: "r < 0 \<or> h = None" by auto
  then have check: "checkInputs r HBZones flag
      = Inr (False, (case flag of None \<Rightarrow> True | Some b \<Rightarrow> b),
             if r < 0 then [negative_rate_msg] else [])"
    using Cons by (auto simp add: checkInputs_def)
  then have "\<exists>unit. checkInputs r HBZones flag
      = Inr (False, unit, if r < 0 then [negative_rate_msg] else [])" by blast
  moreover from check Cons
  have "component hb_hive initCheck HBZones r flag bp
      = Inr (if HBZones \<noteq> [] \<and> initCheck \<and> r < 0 then [negative_rate_msg] else [], None)"
    by (simp add: component_def)
  ultimately show ?thesis by blast
qed

theorem invalid_input_blocks_batch_witness:
  "checkInputs (- 1) [Some office] None = Inr (False, True, [negative_rate_msg])
   \<and> component direct_hive True [Some office] (- 1) None None = Inr ([negative_rate_msg], None)
   \<and> checkInputs (1 :: real) [None :: nat zone option] None = Inr (False, True, [])
   \<and> component direct_hive True [None :: nat zone option] 1 None None = Inr ([], None)"
proof -
  have neg: "(- 1 :: real) < 0 \<or> (\<exists>rest. [Some office] = None # rest)" by simp
  have missing: "(1 :: real) < 0 \<or> (\<exists>rest. [None :: nat zone option] = None # rest)" by simp
  from invalid_input_blocks_batch [OF neg, of None direct_hive True None]
    invalid_input_blocks_batch [OF missing, of None direct_hive True None]
  show ?thesis by (simp add: checkInputs_def)
qed

end
